theory Spec2Isabelle
  imports Complex_Main "HOL-Library.Word" "HOL-Library.Signed_Division"
begin

section \<open>Stepper motor positioning system (stepper\_positioning.ino)\<close>

text \<open>
  The sketch targets an Arduino Uno / Nano (its header says so), an AVR board on which
  \<^verbatim>\<open>int\<close> has 16 bits and \<^verbatim>\<open>long\<close> has 32 bits. Both are modelled as
  machine words read in two's complement (\<open>sint\<close>). C leaves signed overflow
  undefined. For \<^verbatim>\<open>+\<close>, \<^verbatim>\<open>-\<close>, \<^verbatim>\<open>++\<close> and \<^verbatim>\<open>--\<close> the model
  wraps around, and the theorems that need a sum to be the integer sum say so. The
  negation inside \<^verbatim>\<open>abs\<close> is different: its result bounds a loop, and what that
  loop does after the overflow depends on the compiler. There the model gives no
  result: the functions that reach it return \<open>None\<close>, and \<open>Some s\<close> is the state
  when the function returns.
\<close>

type_synonym long = "32 word"
type_synonym c_int = "16 word"

subsection \<open>Constants and global variables\<close>

definition STEP_PIN :: nat where "STEP_PIN = 3"
definition DIR_PIN :: nat where "DIR_PIN = 4"
definition EN_PIN :: nat where "EN_PIN = 5"
definition LIMIT_PIN :: nat where "LIMIT_PIN = 2"

definition STEPS_PER_REV :: c_int where "STEPS_PER_REV = 200"
definition MICROSTEP_MODE :: c_int where "MICROSTEP_MODE = 1"
definition MIN_DELAY_US :: c_int where "MIN_DELAY_US = 500"
definition MAX_DELAY_US :: c_int where "MAX_DELAY_US = 10000"

datatype level = LOW | HIGH

datatype pin_mode = OUTPUT | INPUT_PULLUP

text \<open>What the sketch does to the pin driver, in the order it does it.\<close>

datatype event =
    PinMode nat pin_mode
  | DigitalWrite nat level
  | DelayMicroseconds nat

text \<open>
  What the sketch sends over the serial link: a string, an integer printed in decimal,
  a float printed with a number of fractional digits, and the line end of
  \<^verbatim>\<open>println\<close>. The float is carried as the exact rational it approximates;
  rounding of the 32-bit float is not modelled.
\<close>

datatype out = Text string | Number int | Fixed rat nat | Newline

text \<open>
  The globals of the sketch, the level last driven on each pin, the log of pin
  operations, the serial output, and the number of \<^verbatim>\<open>digitalRead\<close> calls so far.
\<close>

record motor =
  current_position :: long
  target_position :: long
  step_delay_us :: c_int
  pins :: "nat \<Rightarrow> level"
  trace :: "event list"
  serial :: "out list"
  reads :: nat

definition power_on :: motor where
  "power_on = \<lparr>current_position = 0, target_position = 0, step_delay_us = 1500,
     pins = (\<lambda>_. LOW), trace = [], serial = [], reads = 0\<rparr>"

subsection \<open>The Arduino primitives the sketch calls\<close>

definition pinMode :: "nat \<Rightarrow> pin_mode \<Rightarrow> motor \<Rightarrow> motor" where
  "pinMode p m s = s\<lparr>trace := trace s @ [PinMode p m]\<rparr>"

definition digitalWrite :: "nat \<Rightarrow> level \<Rightarrow> motor \<Rightarrow> motor" where
  "digitalWrite p v s = s\<lparr>pins := (pins s)(p := v), trace := trace s @ [DigitalWrite p v]\<rparr>"

definition delayMicroseconds :: "nat \<Rightarrow> motor \<Rightarrow> motor" where
  "delayMicroseconds n s = s\<lparr>trace := trace s @ [DelayMicroseconds n]\<rparr>"

text \<open>
  The limit switch is the only input the sketch reads. Its behaviour is a parameter:
  \<open>limit n\<close> is the level seen by the \<open>n\<close>-th read since power-on.
\<close>

definition digitalRead :: "(nat \<Rightarrow> level) \<Rightarrow> nat \<Rightarrow> motor \<Rightarrow> level \<times> motor" where
  "digitalRead limit p s = (limit (reads s), s\<lparr>reads := Suc (reads s)\<rparr>)"

definition Serial_print :: "out \<Rightarrow> motor \<Rightarrow> motor" where
  "Serial_print x s = s\<lparr>serial := serial s @ [x]\<rparr>"

definition Serial_println :: "out \<Rightarrow> motor \<Rightarrow> motor" where
  "Serial_println x s = s\<lparr>serial := serial s @ [x, Newline]\<rparr>"

text \<open>
  The macro \<^verbatim>\<open>abs(x) ((x)>0?(x):-(x))\<close> of Arduino.h, at type long. Negating the
  most negative long overflows: no result.
\<close>

definition abs_long :: "long \<Rightarrow> long option" where
  "abs_long x =
     (if 0 <s x then Some x
      else if sint x = - 2147483648 then None
      else Some (- x))"

text \<open>C's \<^verbatim>\<open>/\<close> and \<^verbatim>\<open>%\<close> at type long.\<close>

definition long_div :: "long \<Rightarrow> long \<Rightarrow> long" where
  "long_div a b = word_of_int (sint a sdiv sint b)"

definition long_rem :: "long \<Rightarrow> long \<Rightarrow> long" where
  "long_rem a b = word_of_int (sint a smod sint b)"

subsection \<open>The String methods the sketch calls\<close>

definition isspace :: "char \<Rightarrow> bool" where
  "isspace c = (of_char c \<in> {32, 9, 10, 11, 12, 13 :: nat})"

definition isdigit :: "char \<Rightarrow> bool" where
  "isdigit c = (48 \<le> (of_char c :: nat) \<and> (of_char c :: nat) \<le> 57)"

definition toupper :: "char \<Rightarrow> char" where
  "toupper c = (if 97 \<le> (of_char c :: nat) \<and> (of_char c :: nat) \<le> 122
                then char_of ((of_char c :: nat) - 32) else c)"

definition trim :: "string \<Rightarrow> string" where
  "trim s = rev (dropWhile isspace (rev (dropWhile isspace s)))"

definition toUpperCase :: "string \<Rightarrow> string" where
  "toUpperCase s = map toupper s"

definition startsWith :: "string \<Rightarrow> string \<Rightarrow> bool" where
  "startsWith s pre = (length pre \<le> length s \<and> take (length pre) s = pre)"

definition substring :: "nat \<Rightarrow> string \<Rightarrow> string" where
  "substring n s = drop n s"

text \<open>
  \<^verbatim>\<open>String::toInt\<close> is \<^verbatim>\<open>atol\<close> on the buffer: leading white space is skipped,
  one sign is accepted, then decimal digits are accumulated until the first character
  that is not a digit. The accumulator is a long and wraps.
\<close>

fun atol_digits :: "long \<Rightarrow> string \<Rightarrow> long" where
  "atol_digits acc [] = acc"
| "atol_digits acc (c # cs) =
     (if isdigit c then atol_digits (acc * 10 + of_nat (of_char c - 48)) cs else acc)"

definition atol :: "string \<Rightarrow> long" where
  "atol s =
     (case dropWhile isspace s of
        [] \<Rightarrow> 0
      | c # cs \<Rightarrow>
          if c = CHR ''-'' then - atol_digits 0 cs
          else if c = CHR ''+'' then atol_digits 0 cs
          else atol_digits 0 (c # cs))"

definition toInt :: "string \<Rightarrow> long" where
  "toInt s = atol s"

subsection \<open>Low-level motor control\<close>

definition step_once :: "motor \<Rightarrow> motor" where
  "step_once s =
     delayMicroseconds (unat (step_delay_us s))
       (digitalWrite STEP_PIN LOW
         (delayMicroseconds 10
           (digitalWrite STEP_PIN HIGH s)))"

definition set_direction :: "bool \<Rightarrow> motor \<Rightarrow> motor" where
  "set_direction forward s =
     delayMicroseconds 5 (digitalWrite DIR_PIN (if forward then HIGH else LOW) s)"

definition enable_motor :: "motor \<Rightarrow> motor" where
  "enable_motor s = delayMicroseconds 100 (digitalWrite EN_PIN LOW s)"

definition disable_motor :: "motor \<Rightarrow> motor" where
  "disable_motor s = digitalWrite EN_PIN HIGH s"

subsection \<open>Motion functions\<close>

text \<open>The \<^verbatim>\<open>for\<close> loop of \<^verbatim>\<open>move_to\<close>, entered with \<open>i = 0\<close>.\<close>

function move_loop :: "long \<Rightarrow> long \<Rightarrow> long \<Rightarrow> motor \<Rightarrow> motor" where
  "move_loop steps_to_move abs_steps i s =
     (if i <s abs_steps then
        let s1 = step_once s;
            s2 = (if 0 <s steps_to_move
                  then s1\<lparr>current_position := current_position s1 + 1\<rparr>
                  else s1\<lparr>current_position := current_position s1 - 1\<rparr>)
        in move_loop steps_to_move abs_steps (i + 1) s2
      else s)"
  by pat_completeness auto
termination
proof (relation "measure (\<lambda>(steps_to_move, abs_steps, i, s). nat (sint abs_steps - sint i))")
  show "wf (measure (\<lambda>(steps_to_move, abs_steps, i, s). nat (sint abs_steps - sint i)))"
    by simp
next
  fix steps_to_move abs_steps i :: long and s x xa :: motor
  assume lt: "i <s abs_steps"
  have "sint abs_steps < 2147483648"
    using sint_lt [of abs_steps] by simp
  with lt have hi: "sint i + 1 < 2147483648"
    by (simp add: word_sless_alt)
  have lo: "- 2147483648 \<le> sint i + 1"
    using sint_ge [of i] by simp
  have "sint (i + 1) = signed_take_bit 31 (sint i + 1)"
    by (simp add: sint_word_add)
  also have "\<dots> = sint i + 1"
    using hi lo by (simp add: signed_take_bit_int_eq_self)
  finally have "sint (i + 1) = sint i + 1" .
  with lt show "((steps_to_move, abs_steps, i + 1, xa), (steps_to_move, abs_steps, i, s))
      \<in> measure (\<lambda>(steps_to_move, abs_steps, i, s). nat (sint abs_steps - sint i))"
    by (simp add: word_sless_alt)
qed

definition move_to :: "long \<Rightarrow> motor \<Rightarrow> motor option" where
  "move_to target s0 =
     (let s1 = enable_motor s0;
          steps_to_move = target - current_position s1
      in if steps_to_move = 0 then Some (Serial_println (Text ''Already at target.'') s1)
         else
           let s2 = set_direction (0 <s steps_to_move) s1
           in case abs_long steps_to_move of
                None \<Rightarrow> None
              | Some abs_steps \<Rightarrow>
                  let s3 = Serial_print (Number (sint abs_steps))
                             (Serial_print (Text ''Moving '') s2);
                      s4 = Serial_println
                             (Text (if 0 <s steps_to_move then '' steps FORWARD...''
                                    else '' steps BACKWARD...'')) s3;
                      s5 = move_loop steps_to_move abs_steps 0 s4;
                      s6 = Serial_println (Number (sint (current_position s5)))
                             (Serial_print (Text ''Done. Position: '') s5)
                  in Some (disable_motor s6))"

definition move_relative :: "long \<Rightarrow> motor \<Rightarrow> motor option" where
  "move_relative steps s =
     (let target = current_position s + steps in move_to target s)"

text \<open>
  The \<^verbatim>\<open>while\<close> loop of \<^verbatim>\<open>home_sequence\<close> together with the code after it:
  the \<^verbatim>\<open>return\<close> inside the loop skips that code, so it sits in the branch taken
  when the switch reads active.
\<close>

function home_loop :: "(nat \<Rightarrow> level) \<Rightarrow> motor \<Rightarrow> motor" where
  "home_loop limit s =
     (if fst (digitalRead limit LIMIT_PIN s) = HIGH then
        let s1 = step_once (snd (digitalRead limit LIMIT_PIN s));
            s2 = s1\<lparr>current_position := current_position s1 - 1\<rparr>
        in if current_position s2 <s - 10000
           then disable_motor
                  (Serial_println (Text ''ERROR: Limit switch not found. Stopping.'') s2)
           else home_loop limit s2
      else
        let s1 = snd (digitalRead limit LIMIT_PIN s);
            s2 = s1\<lparr>current_position := 0\<rparr>;
            s3 = s2\<lparr>target_position := 0\<rparr>
        in disable_motor (Serial_println (Text ''Home found. Position reset to 0.'') s3))"
  by pat_completeness auto
termination
proof (relation "measure (\<lambda>(limit, s).
    if current_position s = - 2147483648 then 4294967296
    else nat (sint (current_position s) + 2147483648))")
  show "wf (measure (\<lambda>(limit, s).
    if current_position s = - 2147483648 then 4294967296
    else nat (sint (current_position s) + 2147483648)))"
    by simp
next
  fix limit :: "nat \<Rightarrow> level" and s x xa :: motor
  assume x: "x = step_once (snd (digitalRead limit LIMIT_PIN s))"
    and xa: "xa = x\<lparr>current_position := current_position x - 1\<rparr>"
    and ge: "\<not> current_position xa <s - 10000"
  define p where "p = current_position s"
  have pos: "current_position xa = p - 1"
    by (simp add: x xa p_def step_once_def delayMicroseconds_def digitalWrite_def
        digitalRead_def)
  have rng: "- 2147483648 \<le> sint p \<and> sint p < 2147483648"
    using sint_ge [of p] sint_lt [of p] by simp
  show "((limit, xa), (limit, s)) \<in> measure (\<lambda>(limit, s).
    if current_position s = - 2147483648 then 4294967296
    else nat (sint (current_position s) + 2147483648))"
  proof (cases "p = - 2147483648")
    case True
    then show ?thesis by (simp add: pos p_def [symmetric])
  next
    case False
    have "sint p \<noteq> - 2147483648"
    proof
      assume "sint p = - 2147483648"
      then have "sint p = sint (- 2147483648 :: long)" by simp
      then have "p = - 2147483648" by (rule signed_word_eqI)
      with False show False by simp
    qed
    with rng have lo: "- 2147483648 \<le> sint p - 1" by simp
    have "sint (p - 1) = signed_take_bit 31 (sint p - 1)"
      by (simp add: sint_word_diff)
    also have "\<dots> = sint p - 1"
      using lo rng by (simp add: signed_take_bit_int_eq_self)
    finally have eq: "sint (p - 1) = sint p - 1" .
    have ne: "p - 1 \<noteq> - 2147483648"
    proof
      assume "p - 1 = - 2147483648"
      then have "sint (p - 1) = sint (- 2147483648 :: long)" by (rule arg_cong)
      then have "sint (p - 1) = - 2147483648" by simp
      moreover from ge have "- 10000 \<le> sint (p - 1)"
        by (simp add: pos word_sless_alt)
      ultimately show False by simp
    qed
    from False ne eq lo show ?thesis by (simp add: pos p_def [symmetric])
  qed
qed

definition home_sequence :: "(nat \<Rightarrow> level) \<Rightarrow> motor \<Rightarrow> motor" where
  "home_sequence limit s =
     home_loop limit
       (set_direction False (enable_motor (Serial_println (Text ''Homing...'') s)))"

subsection \<open>Status\<close>

text \<open>
  \<^verbatim>\<open>STEPS_PER_REV\<close> is an int: it is converted to long for \<^verbatim>\<open>%\<close> and \<^verbatim>\<open>/\<close>
  (\<open>scast\<close>), and to floating point for \<^verbatim>\<open>360.0 / STEPS_PER_REV\<close>.
  \<^verbatim>\<open>Serial.print\<close> of an int prints it as a long.
\<close>

definition print_status :: "motor \<Rightarrow> motor" where
  "print_status s =
     (let degrees = (of_int (sint (long_rem (current_position s) (scast STEPS_PER_REV))) :: rat)
                      * (360 / of_int (sint STEPS_PER_REV));
          revs = long_div (current_position s) (scast STEPS_PER_REV);
          s1 = Serial_println (Text (CHR 0x0A # ''--- Motor Status ---'')) s;
          s2 = Serial_println (Number (sint (current_position s1)))
                 (Serial_print (Text ''  Position (steps)  : '') s1);
          s3 = Serial_println (Number (sint revs))
                 (Serial_print (Text ''  Position (revs)   : '') s2);
          s4 = Serial_println (Text [CHR 0xC2, CHR 0xB0])
                 (Serial_print (Fixed degrees 1)
                   (Serial_print (Text ''  Angle             : '') s3));
          s5 = Serial_println (Text '' us'')
                 (Serial_print (Number (sint (scast (step_delay_us s4) :: long)))
                   (Serial_print (Text ''  Step delay        : '') s4))
      in Serial_println (Text (''--------------------'' @ [CHR 0x0A])) s5)"

subsection \<open>Command parser\<close>

text \<open>
  \<^verbatim>\<open>int spd = cmd.substring(6).toInt()\<close> stores a long in an int: the low 16 bits
  are kept (\<open>ucast\<close>). The string of the range message holds an en dash in UTF-8.
\<close>

definition handle_command ::
  "(nat \<Rightarrow> level) \<Rightarrow> string \<Rightarrow> motor \<Rightarrow> motor option" where
  "handle_command limit cmd s =
     (if startsWith cmd ''MOVE '' then
        (let steps = toInt (substring 5 cmd) in move_relative steps s)
      else if startsWith cmd ''GOTO '' then
        (let pos = toInt (substring 5 cmd) in move_to pos s)
      else if cmd = ''HOME'' then Some (home_sequence limit s)
      else if startsWith cmd ''SPEED '' then
        (let spd = (ucast (toInt (substring 6 cmd)) :: c_int)
         in if MIN_DELAY_US \<le>s spd \<and> spd \<le>s MAX_DELAY_US then
              let s1 = s\<lparr>step_delay_us := spd\<rparr>
              in Some (Serial_println (Text '' us/step'')
                   (Serial_print (Number (sint (scast (step_delay_us s1) :: long)))
                     (Serial_print (Text ''Speed set: '') s1)))
            else Some (Serial_println
                   (Text (''Speed out of range (500'' @ [CHR 0xE2, CHR 0x80, CHR 0x93]
                          @ ''10000 us)'')) s))
      else if cmd = ''STATUS'' then Some (print_status s)
      else Some (Serial_println
             (Text ''Unknown command. Use: MOVE, GOTO, HOME, SPEED, STATUS'') s))"

subsection \<open>Setup and main loop\<close>

text \<open>\<^verbatim>\<open>setup()\<close>; the serial link is opened first, which leaves no mark here.\<close>

definition setup_sketch :: "motor \<Rightarrow> motor" where
  "setup_sketch s =
     (let s1 = pinMode LIMIT_PIN INPUT_PULLUP
                 (pinMode EN_PIN OUTPUT (pinMode DIR_PIN OUTPUT (pinMode STEP_PIN OUTPUT s)));
          s2 = disable_motor s1;
          s3 = Serial_println (Text ''Stepper Motor Positioning System Ready.'') s2
      in Serial_println (Text ''Commands: MOVE <n>, GOTO <n>, HOME, SPEED <us>, STATUS'') s3)"

text \<open>
  One pass of \<^verbatim>\<open>loop\<close>: \<open>None\<close> when no serial data is available, \<open>Some line\<close>
  for the text that \<^verbatim>\<open>readStringUntil\<close> returns.
\<close>

definition loop ::
  "(nat \<Rightarrow> level) \<Rightarrow> string option \<Rightarrow> motor \<Rightarrow> motor option" where
  "loop limit rx s =
     (case rx of
        None \<Rightarrow> Some s
      | Some line \<Rightarrow> handle_command limit (toUpperCase (trim line)) s)"

section \<open>Vocabulary of the properties\<close>

text \<open>The number of step pulses in a log: each pulse starts by driving STEP high.\<close>

definition step_pulses :: "event list \<Rightarrow> nat" where
  "step_pulses tr = length (filter (\<lambda>e. e = DigitalWrite STEP_PIN HIGH) tr)"

text \<open>The writes to one pin in a log.\<close>

definition writes_to :: "nat \<Rightarrow> event list \<Rightarrow> event list" where
  "writes_to p tr = filter (\<lambda>e. e = DigitalWrite p LOW \<or> e = DigitalWrite p HIGH) tr"

text \<open>
  A text has a numeric prefix when, after leading white space and one optional sign,
  it goes on with a decimal digit.
\<close>

definition has_numeric_prefix :: "string \<Rightarrow> bool" where
  "has_numeric_prefix s =
     (case dropWhile isspace s of
        [] \<Rightarrow> False
      | c # cs \<Rightarrow>
          if c = CHR ''-'' \<or> c = CHR ''+''
          then (case cs of [] \<Rightarrow> False | d # ds \<Rightarrow> isdigit d)
          else isdigit c)"

text \<open>The command forms of the interpreter: a keyword and a space, or a bare keyword.\<close>

definition command_form :: "string \<Rightarrow> bool" where
  "command_form cmd =
     (take 5 cmd = ''MOVE '' \<or> take 5 cmd = ''GOTO '' \<or> cmd = ''HOME''
      \<or> take 6 cmd = ''SPEED '' \<or> cmd = ''STATUS'')"

definition unknown_command :: "out list" where
  "unknown_command =
     [Text ''Unknown command. Use: MOVE, GOTO, HOME, SPEED, STATUS'', Newline]"

text \<open>The two lines a homing run can end with.\<close>

definition home_found :: "out list" where
  "home_found = [Text ''Home found. Position reset to 0.'', Newline]"

definition home_failed :: "out list" where
  "home_failed = [Text ''ERROR: Limit switch not found. Stopping.'', Newline]"

text \<open>
  The state when the homing loop is entered, and the state after one pass of its body
  up to the bound check: the switch was read, one pulse was sent, the position counted
  down.
\<close>

definition home_start :: "motor \<Rightarrow> motor" where
  "home_start s = set_direction False (enable_motor (Serial_println (Text ''Homing...'') s))"

definition home_step :: "motor \<Rightarrow> motor" where
  "home_step s =
     (step_once (s\<lparr>reads := Suc (reads s)\<rparr>))\<lparr>current_position := current_position s - 1\<rparr>"

text \<open>The line that rejects a speed.\<close>

definition range_error :: "out list" where
  "range_error =
     [Text (''Speed out of range (500'' @ [CHR 0xE2, CHR 0x80, CHR 0x93] @ ''10000 us)''),
      Newline]"

text \<open>
  Integer division that truncates toward zero, and the remainder that goes with it
  (it has the sign of the dividend), on the integers.
\<close>

definition trunc_div :: "int \<Rightarrow> int \<Rightarrow> int" where
  "trunc_div a b =
     (if (0 \<le> a) = (0 \<le> b) then \<bar>a\<bar> div \<bar>b\<bar> else - (\<bar>a\<bar> div \<bar>b\<bar>))"

definition trunc_mod :: "int \<Rightarrow> int \<Rightarrow> int" where
  "trunc_mod a b = a - b * trunc_div a b"

section \<open>Machine arithmetic\<close>

declare move_loop.simps [simp del]
declare home_loop.simps [simp del]

lemma sint_long_range: "- 2147483648 \<le> sint (x::long) \<and> sint x < 2147483648"
  using sint_ge [of x] sint_lt [of x] by simp

lemma sint_long_of_int:
  "- 2147483648 \<le> k \<Longrightarrow> k < 2147483648 \<Longrightarrow> sint (word_of_int k :: long) = k"
  by (simp add: sint_sbintrunc' signed_take_bit_int_eq_self)

lemma sint_succ_long: "sint (i::long) < sint (a::long) \<Longrightarrow> sint (i + 1) = sint i + 1"
proof -
  assume h: "sint i < sint a"
  have "sint (i + 1) = signed_take_bit 31 (sint i + 1)"
    by (simp add: sint_word_add)
  also have "\<dots> = sint i + 1"
    using h sint_long_range [of a] sint_long_range [of i]
    by (simp add: signed_take_bit_int_eq_self)
  finally show ?thesis .
qed

lemma sint_pred_long: "- 2147483648 < sint (p::long) \<Longrightarrow> sint (p - 1) = sint p - 1"
proof -
  assume h: "- 2147483648 < sint p"
  have "sint (p - 1) = signed_take_bit 31 (sint p - 1)"
    by (simp add: sint_word_diff)
  also have "\<dots> = sint p - 1"
    using h sint_long_range [of p] by (simp add: signed_take_bit_int_eq_self)
  finally show ?thesis .
qed

lemma sint_neg_long: "sint (p::long) \<noteq> - 2147483648 \<Longrightarrow> sint (- p) = - sint p"
proof -
  assume h: "sint p \<noteq> - 2147483648"
  have "sint (- p) = signed_take_bit 31 (- sint p)"
    by (simp add: sint_word_minus)
  also have "\<dots> = - sint p"
    using h sint_long_range [of p] by (simp add: signed_take_bit_int_eq_self)
  finally show ?thesis .
qed

lemma abs_long_defined:
  "sint x \<noteq> - 2147483648 \<Longrightarrow> abs_long x = Some (if 0 <s x then x else - x)"
  by (simp add: abs_long_def)

lemma abs_long_undefined: "sint x = - 2147483648 \<Longrightarrow> abs_long x = None"
  by (simp add: abs_long_def word_sless_alt)

lemma abs_value_nonneg:
  "sint (x::long) \<noteq> - 2147483648 \<Longrightarrow> 0 \<le> sint (if 0 <s x then x else - x)"
  using sint_neg_long [of x] by (auto simp: word_sless_alt)

lemma abs_value_sint:
  "sint (x::long) \<noteq> - 2147483648 \<Longrightarrow> sint (if 0 <s x then x else - x) = \<bar>sint x\<bar>"
  using sint_neg_long [of x] by (auto simp: word_sless_alt)

section \<open>The pin driver calls, as state updates\<close>

lemma step_once_eq:
  "step_once s = s\<lparr>pins := (pins s)(STEP_PIN := LOW),
     trace := trace s @ [DigitalWrite STEP_PIN HIGH, DelayMicroseconds 10,
       DigitalWrite STEP_PIN LOW, DelayMicroseconds (unat (step_delay_us s))]\<rparr>"
  by (simp add: step_once_def digitalWrite_def delayMicroseconds_def)

lemma enable_motor_eq:
  "enable_motor s = s\<lparr>pins := (pins s)(EN_PIN := LOW),
     trace := trace s @ [DigitalWrite EN_PIN LOW, DelayMicroseconds 100]\<rparr>"
  by (simp add: enable_motor_def digitalWrite_def delayMicroseconds_def)

lemma disable_motor_eq:
  "disable_motor s = s\<lparr>pins := (pins s)(EN_PIN := HIGH),
     trace := trace s @ [DigitalWrite EN_PIN HIGH]\<rparr>"
  by (simp add: disable_motor_def digitalWrite_def)

lemma set_direction_eq:
  "set_direction forward s = s\<lparr>pins := (pins s)(DIR_PIN := (if forward then HIGH else LOW)),
     trace := trace s @ [DigitalWrite DIR_PIN (if forward then HIGH else LOW),
       DelayMicroseconds 5]\<rparr>"
  by (simp add: set_direction_def digitalWrite_def delayMicroseconds_def)

lemma setup_fields:
  "current_position (setup_sketch power_on) = 0"
  "pins (setup_sketch power_on) EN_PIN = HIGH"
  by (simp_all add: setup_sketch_def Let_def disable_motor_eq Serial_println_def pinMode_def
        power_on_def)

section \<open>The stepping loop of a move\<close>

lemma step_pulses_append: "step_pulses (xs @ ys) = step_pulses xs + step_pulses ys"
  by (simp add: step_pulses_def)

lemma step_pulses_step_once: "step_pulses (trace (step_once s)) = Suc (step_pulses (trace s))"
  by (simp add: step_once_eq step_pulses_def)

lemma move_loop_frame:
  "target_position (move_loop stm a i s) = target_position s \<and>
   step_delay_us (move_loop stm a i s) = step_delay_us s \<and>
   serial (move_loop stm a i s) = serial s \<and>
   reads (move_loop stm a i s) = reads s \<and>
   pins (move_loop stm a i s) EN_PIN = pins s EN_PIN \<and>
   pins (move_loop stm a i s) DIR_PIN = pins s DIR_PIN"
proof (induction stm a i s rule: move_loop.induct)
  case (1 stm a i s)
  show ?case
  proof (cases "i <s a")
    case True
    with "1.IH" [OF True refl refl] show ?thesis
      by (cases "0 <s stm"; subst (1 2 3 4 5 6) move_loop.simps)
        (simp_all add: Let_def step_once_eq STEP_PIN_def EN_PIN_def DIR_PIN_def)
  next
    case False
    then show ?thesis by (simp add: move_loop.simps)
  qed
qed

lemma move_loop_position:
  "sint i \<le> sint a \<Longrightarrow>
   current_position (move_loop stm a i s) =
     (if 0 <s stm then current_position s + (a - i) else current_position s - (a - i))"
proof (induction stm a i s rule: move_loop.induct)
  case (1 stm a i s)
  show ?case
  proof (cases "i <s a")
    case True
    then have lt: "sint i < sint a" by (simp add: word_sless_alt)
    then have le: "sint (i + 1) \<le> sint a" by (simp add: sint_succ_long)
    from "1.IH" [OF True refl refl le] True show ?thesis
      by (cases "0 <s stm"; subst move_loop.simps) (simp_all add: Let_def step_once_eq)
  next
    case False
    with "1.prems" have "sint i = sint a" by (simp add: word_sless_alt)
    then have "i = a" by (rule signed_word_eqI)
    with False show ?thesis by (simp add: move_loop.simps)
  qed
qed

lemma move_loop_pulses:
  "sint i \<le> sint a \<Longrightarrow>
   step_pulses (trace (move_loop stm a i s)) = step_pulses (trace s) + nat (sint a - sint i)"
proof (induction stm a i s rule: move_loop.induct)
  case (1 stm a i s)
  show ?case
  proof (cases "i <s a")
    case True
    then have lt: "sint i < sint a" by (simp add: word_sless_alt)
    then have eq: "sint (i + 1) = sint i + 1" by (rule sint_succ_long)
    with lt have le: "sint (i + 1) \<le> sint a" by simp
    from "1.IH" [OF True refl refl le] True lt show ?thesis
      by (cases "0 <s stm"; subst move_loop.simps)
        (simp_all add: Let_def eq step_once_eq step_pulses_def)
  next
    case False
    with "1.prems" have "sint i = sint a" by (simp add: word_sless_alt)
    with False show ?thesis by (simp add: move_loop.simps)
  qed
qed

lemma move_loop_none: "\<not> i <s a \<Longrightarrow> move_loop stm a i s = s"
  by (simp add: move_loop.simps)

section \<open>Moves\<close>

text \<open>
  A move to the position the motor is already at: the motor is enabled before the
  distance is looked at, and the early return does not disable it.
\<close>

lemma move_to_same:
  "move_to (current_position s) s =
     Some (s\<lparr>pins := (pins s)(EN_PIN := LOW),
       trace := trace s @ [DigitalWrite EN_PIN LOW, DelayMicroseconds 100],
       serial := serial s @ [Text ''Already at target.'', Newline]\<rparr>)"
  by (simp add: move_to_def Let_def enable_motor_eq Serial_println_def)

text \<open>A move over a distance whose absolute value exists.\<close>

lemma move_to_moves:
  assumes "target \<noteq> current_position s"
    and "sint (target - current_position s) \<noteq> - 2147483648"
  shows "\<exists>s'. move_to target s = Some s'
    \<and> current_position s' = target
    \<and> pins s' EN_PIN = HIGH
    \<and> step_pulses (trace s') = step_pulses (trace s) + nat \<bar>sint (target - current_position s)\<bar>
    \<and> target_position s' = target_position s
    \<and> step_delay_us s' = step_delay_us s"
proof -
  define stm where "stm = target - current_position s"
  define a where "a = (if 0 <s stm then stm else - stm)"
  define s4 where "s4 = Serial_println
      (Text (if 0 <s stm then '' steps FORWARD...'' else '' steps BACKWARD...''))
      (Serial_print (Number (sint a)) (Serial_print (Text ''Moving '')
        (set_direction (0 <s stm) (enable_motor s))))"
  define s5 where "s5 = move_loop stm a 0 s4"
  define s' where "s' = disable_motor (Serial_println (Number (sint (current_position s5)))
      (Serial_print (Text ''Done. Position: '') s5))"
  have abs: "abs_long stm = Some a"
    unfolding a_def stm_def using assms(2) by (rule abs_long_defined)
  have run: "move_to target s = Some s'"
    using assms(1) abs [unfolded stm_def]
    by (simp add: move_to_def Let_def stm_def s'_def s5_def s4_def enable_motor_eq)
  have f4: "current_position s4 = current_position s"
    "step_pulses (trace s4) = step_pulses (trace s)"
    "target_position s4 = target_position s" "step_delay_us s4 = step_delay_us s"
    by (simp_all add: s4_def enable_motor_eq set_direction_eq Serial_println_def
        Serial_print_def step_pulses_def EN_PIN_def DIR_PIN_def STEP_PIN_def)
  have "0 \<le> sint a"
    unfolding a_def stm_def using assms(2) by (rule abs_value_nonneg)
  then have a0: "sint (0::long) \<le> sint a" by simp
  have av: "sint a = \<bar>sint stm\<bar>"
    unfolding a_def stm_def using assms(2) by (rule abs_value_sint)
  have "current_position s5 =
      (if 0 <s stm then current_position s4 + (a - 0) else current_position s4 - (a - 0))"
    unfolding s5_def by (rule move_loop_position [OF a0])
  then have p5: "current_position s5 = target"
    by (simp add: f4 a_def stm_def)
  have "step_pulses (trace s5) = step_pulses (trace s4) + nat (sint a - sint (0::long))"
    unfolding s5_def by (rule move_loop_pulses [OF a0])
  then have n5: "step_pulses (trace s5) = step_pulses (trace s) + nat \<bar>sint stm\<bar>"
    by (simp add: f4 av)
  have fr: "target_position s5 = target_position s" "step_delay_us s5 = step_delay_us s"
    using move_loop_frame [of stm a 0 s4] by (simp_all add: s5_def f4)
  have "current_position s' = target" "pins s' EN_PIN = HIGH"
    "step_pulses (trace s') = step_pulses (trace s) + nat \<bar>sint stm\<bar>"
    "target_position s' = target_position s" "step_delay_us s' = step_delay_us s"
    using p5 n5 fr
    by (simp_all add: s'_def disable_motor_eq Serial_println_def Serial_print_def
        step_pulses_def EN_PIN_def STEP_PIN_def)
  with run show ?thesis
    by (simp add: stm_def)
qed


text \<open>A move over the most negative long has no result.\<close>

lemma move_to_undefined:
  assumes "sint (target - current_position s) = - 2147483648"
  shows "move_to target s = None"
proof -
  from assms have "target - current_position s \<noteq> 0" by auto
  with assms show ?thesis
    by (simp add: move_to_def Let_def enable_motor_eq abs_long_undefined)
qed

lemma move_to_disables:
  "target \<noteq> current_position s \<Longrightarrow> move_to target s = Some s' \<Longrightarrow> pins s' EN_PIN = HIGH"
  by (auto simp: move_to_def Let_def enable_motor_eq disable_motor_eq
      split: option.splits if_splits)


lemma move_relative_undefined:
  "sint steps = - 2147483648 \<Longrightarrow> move_relative steps s = None"
  by (simp add: move_relative_def Let_def move_to_undefined)




text \<open>
  C2. The claim is that \<^verbatim>\<open>move_to(target)\<close> with the target equal to the
  current position reports the no-op and causes no activity on the EN pin. The code
  differs: it drives EN low (motor enabled), waits 100 microseconds, prints
  ``Already at target.'' and returns with EN still low. The DIR and STEP pins are not
  touched. After setup, a first \<^verbatim>\<open>move_to(5)\<close> ends with EN high and a second
  \<^verbatim>\<open>move_to(5)\<close> leaves it low.
\<close>

theorem move_to_same_target_enables_motor:
  "(\<exists>s'. move_to (current_position s) s = Some s'
      \<and> trace s' = trace s @ [DigitalWrite EN_PIN LOW, DelayMicroseconds 100]
      \<and> writes_to EN_PIN (trace s') = writes_to EN_PIN (trace s) @ [DigitalWrite EN_PIN LOW]
      \<and> pins s' EN_PIN = LOW
      \<and> serial s' = serial s @ [Text ''Already at target.'', Newline])
   \<and> (\<exists>a b. move_to 5 (setup_sketch power_on) = Some a \<and> pins a EN_PIN = HIGH
      \<and> move_to 5 a = Some b \<and> pins b EN_PIN = LOW)"
proof
  show "\<exists>s'. move_to (current_position s) s = Some s'
      \<and> trace s' = trace s @ [DigitalWrite EN_PIN LOW, DelayMicroseconds 100]
      \<and> writes_to EN_PIN (trace s') = writes_to EN_PIN (trace s) @ [DigitalWrite EN_PIN LOW]
      \<and> pins s' EN_PIN = LOW
      \<and> serial s' = serial s @ [Text ''Already at target.'', Newline]"
    by (simp add: move_to_same writes_to_def)
next
  have ne: "(5::long) \<noteq> current_position (setup_sketch power_on)"
    by (simp add: setup_fields)
  have df: "sint (5 - current_position (setup_sketch power_on)) \<noteq> - 2147483648"
    by (simp add: setup_fields)
  from move_to_moves [OF ne df] obtain a
    where a: "move_to 5 (setup_sketch power_on) = Some a"
      and pa: "current_position a = 5" and ea: "pins a EN_PIN = HIGH"
    by blast
  have "move_to 5 a = Some (a\<lparr>pins := (pins a)(EN_PIN := LOW),
       trace := trace a @ [DigitalWrite EN_PIN LOW, DelayMicroseconds 100],
       serial := serial a @ [Text ''Already at target.'', Newline]\<rparr>)"
    using move_to_same [of a] by (simp add: pa)
  with a ea show "\<exists>a b. move_to 5 (setup_sketch power_on) = Some a \<and> pins a EN_PIN = HIGH
      \<and> move_to 5 a = Some b \<and> pins b EN_PIN = LOW"
    by simp
qed

section \<open>Homing\<close>

lemma home_loop_active:
  "limit (reads s) = LOW \<Longrightarrow>
   home_loop limit s =
     s\<lparr>reads := Suc (reads s), current_position := 0, target_position := 0,
       serial := serial s @ home_found,
       pins := (pins s)(EN_PIN := HIGH), trace := trace s @ [DigitalWrite EN_PIN HIGH]\<rparr>"
  by (subst home_loop.simps)
    (simp add: digitalRead_def Let_def disable_motor_eq Serial_println_def home_found_def)

lemma home_step_fields:
  "current_position (home_step s) = current_position s - 1"
  "target_position (home_step s) = target_position s"
  "step_delay_us (home_step s) = step_delay_us s"
  "serial (home_step s) = serial s"
  "reads (home_step s) = Suc (reads s)"
  "pins (home_step s) EN_PIN = pins s EN_PIN"
  "step_pulses (trace (home_step s)) = Suc (step_pulses (trace s))"
  by (simp_all add: home_step_def step_once_eq step_pulses_def STEP_PIN_def EN_PIN_def)

lemma home_abort_fields:
  "current_position (disable_motor (Serial_println x s)) = current_position s"
  "target_position (disable_motor (Serial_println x s)) = target_position s"
  "step_delay_us (disable_motor (Serial_println x s)) = step_delay_us s"
  "serial (disable_motor (Serial_println x s)) = serial s @ [x, Newline]"
  "reads (disable_motor (Serial_println x s)) = reads s"
  "pins (disable_motor (Serial_println x s)) EN_PIN = HIGH"
  "step_pulses (trace (disable_motor (Serial_println x s))) = step_pulses (trace s)"
  by (simp_all add: disable_motor_eq Serial_println_def step_pulses_def EN_PIN_def STEP_PIN_def)

lemma home_loop_step:
  "limit (reads s) = HIGH \<Longrightarrow> \<not> current_position s - 1 <s - 10000 \<Longrightarrow>
   home_loop limit s = home_loop limit (home_step s)"
  by (subst home_loop.simps)
    (simp add: digitalRead_def Let_def home_step_def step_once_eq)

lemma home_loop_abort:
  "limit (reads s) = HIGH \<Longrightarrow> current_position s - 1 <s - 10000 \<Longrightarrow>
   home_loop limit s = disable_motor (Serial_println (Text ''ERROR: Limit switch not found. Stopping.'') (home_step s))"
  by (subst home_loop.simps)
    (simp add: digitalRead_def Let_def home_step_def step_once_eq)

lemma home_loop_found:
  "\<forall>j<k. limit (reads s + j) = HIGH \<Longrightarrow> limit (reads s + k) = LOW \<Longrightarrow>
   int k \<le> sint (current_position s) + 10000 \<Longrightarrow>
   current_position (home_loop limit s) = 0
   \<and> target_position (home_loop limit s) = 0
   \<and> step_delay_us (home_loop limit s) = step_delay_us s
   \<and> pins (home_loop limit s) EN_PIN = HIGH
   \<and> step_pulses (trace (home_loop limit s)) = step_pulses (trace s) + k
   \<and> serial (home_loop limit s) = serial s @ home_found
   \<and> reads (home_loop limit s) = reads s + Suc k"
proof (induction k arbitrary: s)
  case 0
  then have "limit (reads s) = LOW" by simp
  then show ?case
    by (simp add: home_loop_active step_pulses_def EN_PIN_def STEP_PIN_def)
next
  case (Suc k)
  from Suc.prems(1) have hi: "limit (reads s) = HIGH" by force
  from Suc.prems(3) have lo: "- 2147483648 < sint (current_position s)"
    and ge: "- 10000 \<le> sint (current_position s) - 1" by simp_all
  have eq: "sint (current_position s - 1) = sint (current_position s) - 1"
    using lo by (rule sint_pred_long)
  with ge have "\<not> current_position s - 1 <s - 10000"
    by (simp add: word_sless_alt)
  with hi have unf: "home_loop limit s = home_loop limit (home_step s)"
    by (rule home_loop_step)
  have 1: "\<forall>j<k. limit (reads (home_step s) + j) = HIGH"
  proof (intro allI impI)
    fix j
    assume "j < k"
    then have "Suc j < Suc k" by simp
    with Suc.prems(1) have "limit (reads s + Suc j) = HIGH" by blast
    then show "limit (reads (home_step s) + j) = HIGH"
      by (simp add: home_step_fields)
  qed
  have 2: "limit (reads (home_step s) + k) = LOW"
    using Suc.prems(2) by (simp add: home_step_fields)
  have 3: "int k \<le> sint (current_position (home_step s)) + 10000"
    using Suc.prems(3) by (simp add: home_step_fields eq)
  from Suc.IH [OF 1 2 3] show ?case
    by (simp add: unf home_step_fields)
qed

lemma home_loop_never_active:
  "\<forall>n. limit n = HIGH \<Longrightarrow> m = nat (sint (current_position s) + 10000) \<Longrightarrow>
   - 10000 \<le> sint (current_position s) \<Longrightarrow>
   sint (current_position (home_loop limit s)) = - 10001
   \<and> target_position (home_loop limit s) = target_position s
   \<and> step_delay_us (home_loop limit s) = step_delay_us s
   \<and> pins (home_loop limit s) EN_PIN = HIGH
   \<and> step_pulses (trace (home_loop limit s)) = step_pulses (trace s) + Suc m
   \<and> serial (home_loop limit s) = serial s @ home_failed"
proof (induction m arbitrary: s)
  case 0
  then have p: "sint (current_position s) = - 10000" by simp
  then have eq: "sint (current_position s - 1) = - 10001"
    by (simp add: sint_pred_long)
  then have "current_position s - 1 <s - 10000"
    by (simp add: word_sless_alt)
  with "0.prems"(1) have "home_loop limit s = disable_motor (Serial_println (Text ''ERROR: Limit switch not found. Stopping.'') (home_step s))"
    by (simp add: home_loop_abort)
  then show ?case
    by (simp add: home_abort_fields home_step_fields eq home_failed_def)
next
  case (Suc m)
  then have p: "sint (current_position s) = int m - 9999" by simp
  then have eq: "sint (current_position s - 1) = int m - 10000"
    by (simp add: sint_pred_long)
  then have "\<not> current_position s - 1 <s - 10000"
    by (simp add: word_sless_alt)
  with Suc.prems(1) have unf: "home_loop limit s = home_loop limit (home_step s)"
    by (simp add: home_loop_step)
  have 2: "m = nat (sint (current_position (home_step s)) + 10000)"
    by (simp add: home_step_fields eq)
  have 3: "- 10000 \<le> sint (current_position (home_step s))"
    by (simp add: home_step_fields eq)
  from Suc.IH [OF Suc.prems(1) 2 3] show ?case
    by (simp add: unf home_step_fields)
qed

lemma home_loop_below_bound:
  "limit (reads s) = HIGH \<Longrightarrow> sint (current_position s) < - 10000 \<Longrightarrow>
   sint (current_position s) \<noteq> - 2147483648 \<Longrightarrow>
   sint (current_position (home_loop limit s)) = sint (current_position s) - 1
   \<and> target_position (home_loop limit s) = target_position s
   \<and> step_delay_us (home_loop limit s) = step_delay_us s
   \<and> pins (home_loop limit s) EN_PIN = HIGH
   \<and> step_pulses (trace (home_loop limit s)) = step_pulses (trace s) + 1
   \<and> serial (home_loop limit s) = serial s @ home_failed"
proof -
  assume hi: "limit (reads s) = HIGH" and lt: "sint (current_position s) < - 10000"
    and ne: "sint (current_position s) \<noteq> - 2147483648"
  from ne sint_long_range [of "current_position s"]
  have "- 2147483648 < sint (current_position s)" by simp
  then have eq: "sint (current_position s - 1) = sint (current_position s) - 1"
    by (rule sint_pred_long)
  with lt have "current_position s - 1 <s - 10000"
    by (simp add: word_sless_alt)
  with hi have "home_loop limit s = disable_motor (Serial_println (Text ''ERROR: Limit switch not found. Stopping.'') (home_step s))"
    by (rule home_loop_abort)
  then show ?thesis
    by (simp add: home_abort_fields home_step_fields eq home_failed_def)
qed

lemma home_start_fields:
  "current_position (home_start s) = current_position s"
  "target_position (home_start s) = target_position s"
  "step_delay_us (home_start s) = step_delay_us s"
  "serial (home_start s) = serial s @ [Text ''Homing...'', Newline]"
  "reads (home_start s) = reads s"
  "step_pulses (trace (home_start s)) = step_pulses (trace s)"
  by (simp_all add: home_start_def set_direction_eq enable_motor_eq Serial_println_def
      step_pulses_def EN_PIN_def STEP_PIN_def DIR_PIN_def)

lemma home_sequence_start: "home_sequence limit s = home_loop limit (home_start s)"
  by (simp add: home_sequence_def home_start_def)

lemma home_loop_disables: "pins (home_loop limit s) EN_PIN = HIGH"
proof (induction limit s rule: home_loop.induct)
  case (1 limit s)
  show ?case
  proof (cases "limit (reads s) = HIGH")
    case False
    then have "limit (reads s) = LOW" by (cases "limit (reads s)") simp_all
    then show ?thesis by (simp add: home_loop_active)
  next
    case True
    show ?thesis
    proof (cases "current_position s - 1 <s - 10000")
      case abort: True
      with True show ?thesis by (simp add: home_loop_abort home_abort_fields)
    next
      case False
      have r: "fst (digitalRead limit LIMIT_PIN s) = HIGH"
        using True by (simp add: digitalRead_def)
      have x: "home_step s = (step_once (snd (digitalRead limit LIMIT_PIN s)))
          \<lparr>current_position := current_position (step_once (snd (digitalRead limit LIMIT_PIN s))) - 1\<rparr>"
        by (simp add: home_step_def digitalRead_def step_once_eq)
      have "\<not> current_position (home_step s) <s - 10000"
        using False by (simp add: home_step_fields)
      with "1.IH" [OF r refl x] have "pins (home_loop limit (home_step s)) EN_PIN = HIGH" .
      with True False show ?thesis by (simp add: home_loop_step)
    qed
  qed
qed

lemma home_sequence_disables: "pins (home_sequence limit s) EN_PIN = HIGH"
  by (simp add: home_sequence_def home_loop_disables)

lemma home_sequence_never_active:
  assumes "\<forall>n. limit n = HIGH" and "sint (current_position s) \<noteq> - 2147483648"
  shows "step_pulses (trace (home_sequence limit s)) =
           step_pulses (trace s)
             + (if - 10000 \<le> sint (current_position s)
                then nat (sint (current_position s) + 10001) else 1)
         \<and> sint (current_position (home_sequence limit s)) =
             (if - 10000 \<le> sint (current_position s) then - 10001
              else sint (current_position s) - 1)
         \<and> target_position (home_sequence limit s) = target_position s
         \<and> step_delay_us (home_sequence limit s) = step_delay_us s
         \<and> pins (home_sequence limit s) EN_PIN = HIGH
         \<and> serial (home_sequence limit s) =
             serial s @ [Text ''Homing...'', Newline,
               Text ''ERROR: Limit switch not found. Stopping.'', Newline]"
proof (cases "- 10000 \<le> sint (current_position s)")
  case True
  then have 3: "- 10000 \<le> sint (current_position (home_start s))"
    by (simp add: home_start_fields)
  have 2: "nat (sint (current_position s) + 10000) =
      nat (sint (current_position (home_start s)) + 10000)"
    by (simp add: home_start_fields)
  from True have "Suc (nat (sint (current_position s) + 10000)) = nat (sint (current_position s) + 10001)"
    by simp
  with home_loop_never_active [where limit = limit and s = "home_start s", OF assms(1) 2 3] True show ?thesis
    by (simp add: home_sequence_start home_start_fields home_failed_def)
next
  case False
  have 1: "limit (reads (home_start s)) = HIGH"
    using assms(1) by simp
  from False have 2: "sint (current_position (home_start s)) < - 10000"
    by (simp add: home_start_fields)
  from assms(2) have 3: "sint (current_position (home_start s)) \<noteq> - 2147483648"
    by (simp add: home_start_fields)
  from home_loop_below_bound [where limit = limit and s = "home_start s", OF 1 2 3] False show ?thesis
    by (simp add: home_sequence_start home_start_fields home_failed_def)
qed

lemma home_sequence_switch_found:
  assumes "\<forall>j<k. limit (reads s + j) = HIGH" and "limit (reads s + k) = LOW"
    and "k = 0 \<or> int k \<le> sint (current_position s) + 10000"
  shows "current_position (home_sequence limit s) = 0
   \<and> target_position (home_sequence limit s) = 0
   \<and> pins (home_sequence limit s) EN_PIN = HIGH
   \<and> step_pulses (trace (home_sequence limit s)) = step_pulses (trace s) + k
   \<and> serial (home_sequence limit s) =
       serial s @ [Text ''Homing...'', Newline,
         Text ''Home found. Position reset to 0.'', Newline]
   \<and> step_delay_us (home_sequence limit s) = step_delay_us s"
proof (cases "k = 0")
  case True
  with assms(2) have "limit (reads (home_start s)) = LOW"
    by (simp add: home_start_fields)
  then show ?thesis
    using True home_start_fields [of s]
    by (simp add: home_sequence_start home_loop_active home_found_def step_pulses_append
        step_pulses_def EN_PIN_def STEP_PIN_def)
next
  case False
  have 1: "\<forall>j<k. limit (reads (home_start s) + j) = HIGH"
    using assms(1) by (simp add: home_start_fields)
  have 2: "limit (reads (home_start s) + k) = LOW"
    using assms(2) by (simp add: home_start_fields)
  have 3: "int k \<le> sint (current_position (home_start s)) + 10000"
    using assms(3) False by (simp add: home_start_fields)
  from home_loop_found [where limit = limit and s = "home_start s" and k = k, OF 1 2 3] show ?thesis
    by (simp add: home_sequence_start home_start_fields home_found_def)
qed

text \<open>
  C6. When the limit switch reads active at the \<open>k\<close>-th read of a homing run, after
  \<open>k\<close> inactive reads, and the \<open>k\<close> steps taken until then do not carry the
  position below \<open>-10000\<close>, then \<^verbatim>\<open>home_sequence\<close> stops after exactly \<open>k\<close> step
  pulses, sets \<open>current_position\<close> and \<open>target_position\<close> to 0, leaves the motor
  disabled (EN high) and reports ``Home found. Position reset to 0.''.
\<close>

theorem home_sequence_found:
  assumes "\<forall>j<k. limit (reads s + j) = HIGH" and "limit (reads s + k) = LOW"
    and "k = 0 \<or> int k \<le> sint (current_position s) + 10000"
  shows "current_position (home_sequence limit s) = 0
   \<and> target_position (home_sequence limit s) = 0
   \<and> pins (home_sequence limit s) EN_PIN = HIGH
   \<and> step_pulses (trace (home_sequence limit s)) = step_pulses (trace s) + k
   \<and> serial (home_sequence limit s) =
       serial s @ [Text ''Homing...'', Newline,
         Text ''Home found. Position reset to 0.'', Newline]
   \<and> step_delay_us (home_sequence limit s) = step_delay_us s"
  using assms by (rule home_sequence_switch_found)

theorem home_sequence_found_witness:
  "current_position (home_sequence (\<lambda>n. if n < 5 then HIGH else LOW) power_on) = 0
   \<and> target_position (home_sequence (\<lambda>n. if n < 5 then HIGH else LOW) power_on) = 0
   \<and> pins (home_sequence (\<lambda>n. if n < 5 then HIGH else LOW) power_on) EN_PIN = HIGH
   \<and> step_pulses (trace (home_sequence (\<lambda>n. if n < 5 then HIGH else LOW) power_on)) = 5"
proof -
  show ?thesis
    using home_sequence_found [where limit = "\<lambda>n. if n < 5 then HIGH else LOW" and s = power_on and k = 5]
    by (simp add: power_on_def step_pulses_def)
qed

text \<open>
  C3 (as amended). With the limit switch never active, \<^verbatim>\<open>home_sequence\<close> started
  at a position \<open>p\<close> other than \<open>-2147483648\<close> aborts after exactly \<open>p + 10001\<close>
  step pulses when \<open>p \<ge> -10000\<close> (10001 pulses when \<open>p = 0\<close>), leaving
  \<open>current_position\<close> at \<open>-10001\<close>, and after one pulse at \<open>p - 1\<close> when
  \<open>p < -10000\<close>. In both cases it reports the homing failure, leaves the motor
  disabled, does not reset the position to 0 and returns. The start \<open>-2147483648\<close>
  is left out: the first decrement overflows there.
\<close>

theorem home_sequence_timeout:
  assumes "\<forall>n. limit n = HIGH" and "sint (current_position s) \<noteq> - 2147483648"
  shows "step_pulses (trace (home_sequence limit s)) =
           step_pulses (trace s)
             + (if - 10000 \<le> sint (current_position s)
                then nat (sint (current_position s) + 10001) else 1)
         \<and> sint (current_position (home_sequence limit s)) =
             (if - 10000 \<le> sint (current_position s) then - 10001
              else sint (current_position s) - 1)
         \<and> target_position (home_sequence limit s) = target_position s
         \<and> step_delay_us (home_sequence limit s) = step_delay_us s
         \<and> pins (home_sequence limit s) EN_PIN = HIGH
         \<and> serial (home_sequence limit s) =
             serial s @ [Text ''Homing...'', Newline,
               Text ''ERROR: Limit switch not found. Stopping.'', Newline]"
  using assms by (rule home_sequence_never_active)

theorem home_sequence_timeout_witness:
  "(\<forall>n. (\<lambda>n. HIGH) n = HIGH) \<and> sint (current_position power_on) \<noteq> - 2147483648
   \<and> step_pulses (trace (home_sequence (\<lambda>n. HIGH) power_on)) = 10001
   \<and> sint (current_position (home_sequence (\<lambda>n. HIGH) power_on)) = - 10001
   \<and> pins (home_sequence (\<lambda>n. HIGH) power_on) EN_PIN = HIGH"
proof -
  show ?thesis
    using home_sequence_timeout [where limit = "\<lambda>n. HIGH" and s = power_on]
    by (simp add: power_on_def step_pulses_def)
qed

lemma goto_command: "handle_command limit (''GOTO '' @ arg) s = move_to (toInt arg) s"
  by (simp add: handle_command_def startsWith_def substring_def)

lemma home_command: "handle_command limit ''HOME'' s = Some (home_sequence limit s)"
  by (simp add: handle_command_def startsWith_def)

lemma toInt_1: "toInt ''1'' = 1"
  by (simp add: toInt_def atol_def isspace_def isdigit_def)

text \<open>
  C3 as stated fails when homing does not start at position 0. After setup,
  \<^verbatim>\<open>GOTO 1\<close> sends one step pulse; a following \<^verbatim>\<open>HOME\<close> with the switch never
  active brings the count to 10003: it sends 10002 step pulses before it aborts, not
  10001.
\<close>

theorem home_timeout_step_count_counterexample:
  "map_option (step_pulses \<circ> trace)
     (handle_command (\<lambda>n. HIGH) ''GOTO 1'' (setup_sketch power_on)) = Some 1
   \<and> map_option (step_pulses \<circ> trace)
     (Option.bind (handle_command (\<lambda>n. HIGH) ''GOTO 1'' (setup_sketch power_on))
        (handle_command (\<lambda>n. HIGH) ''HOME'')) = Some 10003"
proof -
  have ne: "(1::long) \<noteq> current_position (setup_sketch power_on)"
    by (simp add: setup_fields)
  have df: "sint (1 - current_position (setup_sketch power_on)) \<noteq> - 2147483648"
    by (simp add: setup_fields)
  have p0: "step_pulses (trace (setup_sketch power_on)) = 0"
    by (simp add: setup_sketch_def Let_def disable_motor_eq Serial_println_def pinMode_def
        power_on_def step_pulses_def EN_PIN_def STEP_PIN_def)
  from move_to_moves [OF ne df] obtain s1
    where m: "move_to 1 (setup_sketch power_on) = Some s1"
      and cp1: "current_position s1 = 1"
      and n1: "step_pulses (trace s1) = 1"
    by (auto simp: setup_fields p0)
  have g: "handle_command (\<lambda>n. HIGH) ''GOTO 1'' (setup_sketch power_on) = Some s1"
    using goto_command [of "\<lambda>n. HIGH" "''1''" "setup_sketch power_on"]
    by (simp add: toInt_1 m)
  from home_sequence_never_active [where limit = "\<lambda>n. HIGH" and s = s1]
  have "step_pulses (trace (home_sequence (\<lambda>n. HIGH) s1)) = 10003"
    by (simp add: cp1 n1)
  then show ?thesis
    by (simp add: g n1 home_command)
qed

section \<open>The command parser\<close>

lemma toInt_0: "toInt ''0'' = 0"
  by (simp add: toInt_def atol_def isspace_def isdigit_def)

lemma move_command:
  "handle_command limit (''MOVE '' @ arg) s = move_relative (toInt arg) s"
  by (simp add: handle_command_def startsWith_def substring_def)

lemma status_command: "handle_command limit ''STATUS'' s = Some (print_status s)"
  by (simp add: handle_command_def startsWith_def)

lemma pins_print_status: "pins (print_status s) = pins s"
  by (simp add: print_status_def Let_def Serial_println_def Serial_print_def)

lemma sint_int_as_long: "sint (scast (w :: c_int) :: long) = sint w"
  by (rule sint_up_scast) (simp add: is_up)

lemma speed_command:
  "handle_command limit (''SPEED '' @ arg) s =
     (let spd = (ucast (toInt arg) :: c_int)
      in if 500 \<le> sint spd \<and> sint spd \<le> 10000
         then Some (s\<lparr>step_delay_us := spd,
                serial := serial s @
                  [Text ''Speed set: '', Number (sint spd), Text '' us/step'', Newline]\<rparr>)
         else Some (s\<lparr>serial := serial s @ range_error\<rparr>))"
  by (simp add: handle_command_def startsWith_def substring_def Let_def MIN_DELAY_US_def
      MAX_DELAY_US_def word_sle_eq Serial_println_def Serial_print_def range_error_def
      sint_int_as_long)

lemma toInt_66036: "toInt ''66036'' = 66036"
  by (simp add: toInt_def atol_def isspace_def isdigit_def)

lemma atol_digits_stop: "r = [] \<or> \<not> isdigit (hd r) \<Longrightarrow> atol_digits acc r = acc"
  by (cases r) auto

lemma atol_digits_prefix:
  "\<forall>c\<in>set ds. isdigit c \<Longrightarrow> r = [] \<or> \<not> isdigit (hd r) \<Longrightarrow>
   atol_digits acc (ds @ r) = atol_digits acc ds"
  by (induction ds arbitrary: acc) (simp_all add: atol_digits_stop)

lemma no_prefix_atol: "\<not> has_numeric_prefix s \<Longrightarrow> atol s = 0"
proof (cases "dropWhile isspace s")
  case Nil
  show ?thesis unfolding atol_def Nil by simp
next
  case (Cons c cs)
  assume h: "\<not> has_numeric_prefix s"
  show ?thesis
  proof (cases "c = CHR ''-'' \<or> c = CHR ''+''")
    case True
    with h Cons have "cs = [] \<or> \<not> isdigit (hd cs)"
      by (cases cs) (simp_all add: has_numeric_prefix_def)
    then have "atol_digits 0 cs = 0"
      by (cases cs) auto
    with True Cons show ?thesis by (auto simp: atol_def)
  next
    case False
    with h Cons have "\<not> isdigit c"
      by (simp add: has_numeric_prefix_def)
    with False Cons show ?thesis by (simp add: atol_def)
  qed
qed

lemma startsWith_take: "startsWith s pre = (take (length pre) s = pre)"
proof
  assume "startsWith s pre"
  then show "take (length pre) s = pre" by (simp add: startsWith_def)
next
  assume h: "take (length pre) s = pre"
  then have "length (take (length pre) s) = length pre" by simp
  then have "length pre \<le> length s" by simp
  with h show "startsWith s pre" by (simp add: startsWith_def)
qed

lemma startsWith_keywords:
  "startsWith cmd ''MOVE '' = (take 5 cmd = ''MOVE '')"
  "startsWith cmd ''GOTO '' = (take 5 cmd = ''GOTO '')"
  "startsWith cmd ''SPEED '' = (take 6 cmd = ''SPEED '')"
  using startsWith_take [of cmd "''MOVE ''"] startsWith_take [of cmd "''GOTO ''"]
    startsWith_take [of cmd "''SPEED ''"]
  by (simp_all add: eval_nat_numeral)

lemma unknown_command_output:
  "\<not> command_form cmd \<Longrightarrow>
   handle_command limit cmd s = Some (s\<lparr>serial := serial s @ unknown_command\<rparr>)"
  by (simp add: command_form_def handle_command_def startsWith_keywords Serial_println_def
      unknown_command_def)

text \<open>
  C1. The claim is that the EN line is inactive (high) after every command. The code
  differs on one path: a \<^verbatim>\<open>MOVE 0\<close> (or a \<^verbatim>\<open>GOTO\<close> to the current position)
  enables the motor and returns without disabling it, so after setup, where EN is
  high, the line \<^verbatim>\<open>MOVE 0\<close> leaves EN low, and it stays low through a following
  \<^verbatim>\<open>STATUS\<close>. Every other path disables the motor (\<open>move_to_disables\<close>,
  \<open>home_sequence_disables\<close>).
\<close>

theorem no_op_move_leaves_motor_enabled:
  "pins (setup_sketch power_on) EN_PIN = HIGH
   \<and> (\<exists>s1 s2. handle_command limit ''MOVE 0'' (setup_sketch power_on) = Some s1
        \<and> pins s1 EN_PIN = LOW
        \<and> handle_command limit ''STATUS'' s1 = Some s2
        \<and> pins s2 EN_PIN = LOW)"
  using move_command [of limit "''0''" "setup_sketch power_on"]
    move_to_same [of "setup_sketch power_on"]
  by (simp add: status_command pins_print_status setup_fields toInt_0 move_relative_def)

text \<open>
  C5. The claim is that \<^verbatim>\<open>SPEED <us>\<close> sets \<open>step_delay_us\<close> exactly when the
  parsed value lies in [500, 10000]. The code stores the parsed long in an int before
  the range check, which keeps its low 16 bits: \<^verbatim>\<open>SPEED 66036\<close> parses to 66036,
  outside the interval, and yet sets \<open>step_delay_us\<close> to 500 and reports
  ``Speed set: 500 us/step''.
\<close>

theorem speed_command_truncates_parsed_value:
  "sint (toInt ''66036'') = 66036
   \<and> handle_command limit ''SPEED 66036'' s =
       Some (s\<lparr>step_delay_us := 500,
         serial := serial s @
           [Text ''Speed set: '', Number 500, Text '' us/step'', Newline]\<rparr>)"
  using speed_command [of limit "''66036''" s]
  by (simp add: toInt_66036)

text \<open>
  C8. For every line that matches none of the command forms, \<^verbatim>\<open>handle_command\<close>
  prints the unknown-command message and changes nothing else: position, target,
  step delay, pin levels and the pin log are as before.
\<close>

theorem unknown_command_changes_no_state:
  assumes "\<not> command_form cmd"
  shows "handle_command limit cmd s =
    Some (s\<lparr>serial := serial s @
      [Text ''Unknown command. Use: MOVE, GOTO, HOME, SPEED, STATUS'', Newline]\<rparr>)"
  using assms unknown_command_output [of cmd limit s] by (simp add: unknown_command_def)

theorem unknown_command_changes_no_state_witness:
  "\<not> command_form ''FOO'' \<and>
   handle_command (\<lambda>n. HIGH) ''FOO'' power_on =
    Some (power_on\<lparr>serial :=
      [Text ''Unknown command. Use: MOVE, GOTO, HOME, SPEED, STATUS'', Newline]\<rparr>)"
proof -
  have h: "\<not> command_form ''FOO''" by (simp add: command_form_def)
  from unknown_command_changes_no_state [OF h, of "\<lambda>n. HIGH" power_on] h show ?thesis
    by (simp add: power_on_def)
qed

text \<open>
  C9. For every argument text with no numeric prefix, \<^verbatim>\<open>toInt\<close> gives 0, so
  \<^verbatim>\<open>MOVE <s>\<close> dispatches \<^verbatim>\<open>move_relative(0)\<close>; under the same parsing
  \<^verbatim>\<open>GOTO <s>\<close> dispatches \<^verbatim>\<open>move_to(0)\<close> and \<^verbatim>\<open>SPEED <s>\<close> checks the
  value 0, which is rejected as out of range.
\<close>

theorem non_numeric_argument_parses_to_zero:
  assumes "\<not> has_numeric_prefix arg"
  shows "toInt arg = 0
    \<and> handle_command limit (''MOVE '' @ arg) s = move_relative 0 s
    \<and> handle_command limit (''GOTO '' @ arg) s = move_to 0 s
    \<and> handle_command limit (''SPEED '' @ arg) s =
         Some (Serial_println
           (Text (''Speed out of range (500'' @ [CHR 0xE2, CHR 0x80, CHR 0x93]
                  @ ''10000 us)'')) s)"
proof -
  from assms have z: "toInt arg = 0"
    by (simp add: toInt_def no_prefix_atol)
  with move_command [of limit arg s] goto_command [of limit arg s]
    speed_command [of limit arg s]
  show ?thesis
    by (simp add: range_error_def Serial_println_def)
qed

theorem non_numeric_argument_parses_to_zero_witness:
  "\<not> has_numeric_prefix ''ABC'' \<and> toInt ''ABC'' = 0
    \<and> handle_command (\<lambda>n. HIGH) ''MOVE ABC'' power_on = move_relative 0 power_on
    \<and> handle_command (\<lambda>n. HIGH) ''GOTO ABC'' power_on = move_to 0 power_on
    \<and> map_option step_delay_us (handle_command (\<lambda>n. HIGH) ''SPEED ABC'' power_on)
        = Some 1500"
proof -
  have h: "\<not> has_numeric_prefix ''ABC''"
    by (simp add: has_numeric_prefix_def isspace_def isdigit_def)
  from non_numeric_argument_parses_to_zero [OF h, of "\<lambda>n. HIGH" power_on] h show ?thesis
    by (simp add: Serial_println_def power_on_def)
qed

text \<open>
  C10. The keywords MOVE, GOTO and SPEED are recognised only with a space after them:
  the bare lines \<^verbatim>\<open>MOVE\<close>, \<^verbatim>\<open>GOTO\<close> and \<^verbatim>\<open>SPEED\<close> get the
  unknown-command message and change no state. The main loop trims the line first, so
  a keyword followed only by spaces is a bare keyword too.
\<close>

theorem bare_keyword_is_unknown_command:
  "handle_command limit ''MOVE'' s =
     Some (s\<lparr>serial := serial s @
       [Text ''Unknown command. Use: MOVE, GOTO, HOME, SPEED, STATUS'', Newline]\<rparr>)
   \<and> handle_command limit ''GOTO'' s =
     Some (s\<lparr>serial := serial s @
       [Text ''Unknown command. Use: MOVE, GOTO, HOME, SPEED, STATUS'', Newline]\<rparr>)
   \<and> handle_command limit ''SPEED'' s =
     Some (s\<lparr>serial := serial s @
       [Text ''Unknown command. Use: MOVE, GOTO, HOME, SPEED, STATUS'', Newline]\<rparr>)
   \<and> loop limit (Some ''move '') s =
     Some (s\<lparr>serial := serial s @
       [Text ''Unknown command. Use: MOVE, GOTO, HOME, SPEED, STATUS'', Newline]\<rparr>)"
proof -
  have "\<not> command_form ''MOVE''" "\<not> command_form ''GOTO''" "\<not> command_form ''SPEED''"
    by (simp_all add: command_form_def)
  moreover have "toUpperCase (trim ''move '') = ''MOVE''"
    by (simp add: toUpperCase_def trim_def isspace_def toupper_def char_of_def bit_Suc_0_iff)
  ultimately show ?thesis
    by (simp add: unknown_command_output loop_def unknown_command_def)
qed

theorem bare_keyword_is_unknown_command_witness:
  "map_option serial (handle_command (\<lambda>n. HIGH) ''MOVE'' power_on) = Some unknown_command
   \<and> map_option current_position (handle_command (\<lambda>n. HIGH) ''MOVE'' power_on) = Some 0
   \<and> map_option step_delay_us (handle_command (\<lambda>n. HIGH) ''SPEED'' power_on) = Some 1500
   \<and> map_option trace (handle_command (\<lambda>n. HIGH) ''GOTO'' power_on) = Some []"
  using bare_keyword_is_unknown_command [of "\<lambda>n. HIGH" power_on]
  by (simp add: power_on_def unknown_command_def)

section \<open>Status\<close>

lemma sdiv_200: "(k::int) sdiv 200 = trunc_div k 200"
  by (simp add: signed_divide_int_def trunc_div_def sgn_if)

lemma smod_200: "(k::int) smod 200 = trunc_mod k 200"
proof -
  have "k smod 200 = k - k sdiv 200 * 200"
    by (rule minus_sdiv_mult_eq_smod [symmetric])
  then show ?thesis by (simp add: sdiv_200 trunc_mod_def)
qed

lemma trunc_div_200_range:
  "- 2147483648 \<le> k \<Longrightarrow> k < 2147483648 \<Longrightarrow>
   - 2147483648 \<le> trunc_div k 200 \<and> trunc_div k 200 < 2147483648"
  by (auto simp: trunc_div_def)

lemma trunc_mod_200_bounds:
  "\<bar>trunc_mod k 200\<bar> < 200 \<and> (0 \<le> k \<longrightarrow> 0 \<le> trunc_mod k 200)
   \<and> (k \<le> 0 \<longrightarrow> trunc_mod k 200 \<le> 0)"
  by (auto simp: trunc_mod_def trunc_div_def)

lemma steps_per_rev_long: "(scast STEPS_PER_REV :: long) = 200" "sint STEPS_PER_REV = 200"
  by (simp_all add: STEPS_PER_REV_def)

lemma sint_long_div_200: "sint (long_div x 200) = trunc_div (sint x) 200"
  using trunc_div_200_range [of "sint x"] sint_long_range [of x]
  by (simp add: long_div_def sdiv_200 sint_long_of_int)

lemma sint_long_rem_200: "sint (long_rem x 200) = trunc_mod (sint x) 200"
proof -
  have "\<bar>trunc_mod (sint x) 200\<bar> < 200"
    using trunc_mod_200_bounds [of "sint x"] by simp
  then have "- 2147483648 \<le> trunc_mod (sint x) 200" and "trunc_mod (sint x) 200 < 2147483648"
    by simp_all
  then have "sint (word_of_int (trunc_mod (sint x) 200) :: long) = trunc_mod (sint x) 200"
    by (rule sint_long_of_int)
  then show ?thesis
    by (simp add: long_rem_def smod_200)
qed

text \<open>
  C7. For every state, \<^verbatim>\<open>print_status\<close> prints the position, the revolutions
  \<open>current_position / 200\<close> truncated toward zero, the angle
  \<open>(current_position rem 200) * (360 / 200)\<close> with the remainder that keeps the sign
  of the position (so the angle is negative for a negative position) to one fractional
  digit, and the step delay; nothing but the serial output changes.
\<close>

theorem print_status_report:
  "print_status s =
     s\<lparr>serial := serial s @
       [Text (CHR 0x0A # ''--- Motor Status ---''), Newline,
        Text ''  Position (steps)  : '', Number (sint (current_position s)), Newline,
        Text ''  Position (revs)   : '', Number (trunc_div (sint (current_position s)) 200),
        Newline,
        Text ''  Angle             : '',
        Fixed (of_int (trunc_mod (sint (current_position s)) 200) * (360 / 200)) 1,
        Text [CHR 0xC2, CHR 0xB0], Newline,
        Text ''  Step delay        : '', Number (sint (step_delay_us s)), Text '' us'', Newline,
        Text (''--------------------'' @ [CHR 0x0A]), Newline]\<rparr>
   \<and> \<bar>trunc_mod (sint (current_position s)) 200\<bar> < 200
   \<and> (0 \<le> sint (current_position s) \<longrightarrow> 0 \<le> trunc_mod (sint (current_position s)) 200)
   \<and> (sint (current_position s) \<le> 0 \<longrightarrow> trunc_mod (sint (current_position s)) 200 \<le> 0)"
  using trunc_mod_200_bounds [of "sint (current_position s)"]
  by (simp add: print_status_def Let_def Serial_println_def Serial_print_def
      steps_per_rev_long sint_long_div_200 sint_long_rem_200 sint_int_as_long)

theorem print_status_report_witness:
  "serial (print_status (power_on\<lparr>current_position := 400\<rparr>)) =
       [Text (CHR 0x0A # ''--- Motor Status ---''), Newline,
        Text ''  Position (steps)  : '', Number 400, Newline,
        Text ''  Position (revs)   : '', Number 2, Newline,
        Text ''  Angle             : '', Fixed 0 1, Text [CHR 0xC2, CHR 0xB0], Newline,
        Text ''  Step delay        : '', Number 1500, Text '' us'', Newline,
        Text (''--------------------'' @ [CHR 0x0A]), Newline]
   \<and> serial (print_status (power_on\<lparr>current_position := - 250\<rparr>)) =
       [Text (CHR 0x0A # ''--- Motor Status ---''), Newline,
        Text ''  Position (steps)  : '', Number (- 250), Newline,
        Text ''  Position (revs)   : '', Number (- 1), Newline,
        Text ''  Angle             : '', Fixed (- 90) 1, Text [CHR 0xC2, CHR 0xB0], Newline,
        Text ''  Step delay        : '', Number 1500, Text '' us'', Newline,
        Text (''--------------------'' @ [CHR 0x0A]), Newline]"
  using print_status_report [of "power_on\<lparr>current_position := 400\<rparr>"]
    print_status_report [of "power_on\<lparr>current_position := - 250\<rparr>"]
  by (simp add: power_on_def trunc_div_def trunc_mod_def)

end
